theory Spec2Isabelle
  imports Main
begin

section \<open>Values and errors\<close>

text \<open>
  The commands package of curious works on Python values. Only the values that reach the
  argument converter are modelled: strings (the tokens of a message), and integers and
  \<open>None\<close> as examples of declared defaults that are not strings. A character is a code
  point below 256.
\<close>

datatype pyval = PStr string | PInt int | PNone

text \<open>Every exception the modelled functions can raise is a value of \<open>error\<close>.\<close>

datatype error =
    MissingArgumentError string
  | ConversionFailedError
  | TypeError
  | KeyError
  | IndexError
  | AttributeError
  | ValueError

section \<open>The argument converter (utils.py, \<open>_convert\<close>)\<close>

datatype param_kind =
    POSITIONAL_ONLY
  | POSITIONAL_OR_KEYWORD
  | VAR_POSITIONAL
  | KEYWORD_ONLY
  | VAR_KEYWORD

text \<open>
  One \<open>inspect.Parameter\<close>. \<open>param_default = None\<close> stands for
  \<open>inspect.Parameter.empty\<close>; a declared default \<open>d\<close> (also a declared \<open>None\<close>) is
  \<open>Some d\<close>.
\<close>

record parameter =
  param_name :: string
  param_kind :: param_kind
  param_default :: "pyval option"
  param_annotation :: string

text \<open>
  The context gives the converter of an annotation (\<open>ctx._lookup_converter\<close>); a converter
  takes a value and returns the converted value or raises.
\<close>

record cmd_context =
  lookup_converter :: "string \<Rightarrow> pyval \<Rightarrow> error + pyval"

text \<open>
  Modelled from the spec: \<open>replace_quotes\<close> of \<open>curious.util\<close> is not among the sources.
  The spec says of it: strip one matching pair of surrounding double quotes if present.
  It walks over the characters of a string, so a value that is not a string is rejected
  with a \<open>TypeError\<close>.
\<close>

definition strip_quotes :: "string \<Rightarrow> string" where
  "strip_quotes s =
     (if 2 \<le> length s \<and> hd s = CHR 0x22 \<and> last s = CHR 0x22 then butlast (tl s) else s)"

definition replace_quotes :: "pyval \<Rightarrow> error + pyval" where
  "replace_quotes v = (case v of PStr s \<Rightarrow> Inr (PStr (strip_quotes s)) | _ \<Rightarrow> Inl TypeError)"

text \<open>\<open>" ".join(f)\<close>: every element has to be a string.\<close>

fun join_spaces :: "pyval list \<Rightarrow> error + string" where
  "join_spaces [] = Inr []"
| "join_spaces [PStr s] = Inr s"
| "join_spaces (PStr s # v # vs) =
     (case join_spaces (v # vs) of Inl e \<Rightarrow> Inl e | Inr r \<Rightarrow> Inr (s @ '' '' @ r))"
| "join_spaces (_ # vs) = Inl TypeError"

text \<open>
  The head of the loop body: \<open>next(args_it)\<close> and its \<open>StopIteration\<close> handler. The result
  is a \<open>break\<close>, a raised error, or the argument with the tokens left in the iterator.
\<close>

datatype fetched = Break | Raise error | Got pyval "string list"

definition next_arg :: "string list \<Rightarrow> parameter \<Rightarrow> fetched" where
  "next_arg tokens param =
     (case tokens of
        t # ts \<Rightarrow> Got (PStr t) ts
      | [] \<Rightarrow>
          if param_kind param = VAR_POSITIONAL then Break
          else (case param_default param of
                  None \<Rightarrow> Raise (MissingArgumentError (param_name param))
                | Some d \<Rightarrow> Got d []))"

text \<open>
  \<open>final_kwargs[param.name] = v\<close> on a dictionary kept in insertion order.
\<close>

fun dict_set :: "('k \<times> 'v) list \<Rightarrow> 'k \<Rightarrow> 'v \<Rightarrow> ('k \<times> 'v) list" where
  "dict_set [] k v = [(k, v)]"
| "dict_set ((k', v') # kvs) k v =
     (if k' = k then (k, v) # kvs else (k', v') # dict_set kvs k v)"

text \<open>
  The loop over the parameters after the first one. \<open>final_args\<close> and \<open>final_kwargs\<close>
  are the accumulators of the source.
\<close>

fun convert_params ::
  "cmd_context \<Rightarrow> string list \<Rightarrow> parameter list \<Rightarrow> pyval list \<Rightarrow> (string \<times> pyval) list
     \<Rightarrow> error + (pyval list \<times> (string \<times> pyval) list)" where
  "convert_params ctx tokens [] final_args final_kwargs = Inr (final_args, final_kwargs)"
| "convert_params ctx tokens (param # params) final_args final_kwargs =
     (case next_arg tokens param of
        Break \<Rightarrow> Inr (final_args, final_kwargs)
      | Raise e \<Rightarrow> Inl e
      | Got arg rest \<Rightarrow>
          if param_kind param = POSITIONAL_OR_KEYWORD \<or> param_kind param = POSITIONAL_ONLY then
            (case replace_quotes arg of
               Inl e \<Rightarrow> Inl e
             | Inr arg' \<Rightarrow>
                 (case lookup_converter ctx (param_annotation param) arg' of
                    Inl e \<Rightarrow> Inl e
                  | Inr v \<Rightarrow> convert_params ctx rest params (final_args @ [v]) final_kwargs))
          else if param_kind param = KEYWORD_ONLY then
            (let f = arg # map PStr rest in
             case (if length f = 1 then lookup_converter ctx (param_annotation param) (hd f)
                   else (case join_spaces f of
                           Inl e \<Rightarrow> Inl e
                         | Inr s \<Rightarrow> lookup_converter ctx (param_annotation param) (PStr s))) of
               Inl e \<Rightarrow> Inl e
             | Inr v \<Rightarrow>
                 convert_params ctx [] params final_args
                   (dict_set final_kwargs (param_name param) v))
          else if param_kind param = VAR_POSITIONAL then
            (let f = arg # map PStr rest in
             case join_spaces f of
               Inl e \<Rightarrow> Inl e
             | Inr s \<Rightarrow>
                 (case lookup_converter ctx (param_annotation param) (PStr s) of
                    Inl e \<Rightarrow> Inl e
                  | Inr v \<Rightarrow> convert_params ctx [] params (final_args @ [v]) final_kwargs))
          else convert_params ctx rest params final_args final_kwargs)"

text \<open>
  \<open>_convert\<close>: the first parameter of the signature (the context) is skipped.
\<close>

definition convert :: "cmd_context \<Rightarrow> string list \<Rightarrow> parameter list
     \<Rightarrow> error + (pyval list \<times> (string \<times> pyval) list)" where
  "convert ctx tokens signature = convert_params ctx tokens (drop 1 signature) [] []"

section \<open>The tokenizer (utils.py, \<open>split_message_content\<close>)\<close>

text \<open>
  \<open>str.replace(old, new)\<close>: the occurrences of \<open>old\<close> are replaced from left to right
  without overlap; an empty \<open>old\<close> matches before every character and at the end.
\<close>

function replace_nonempty :: "string \<Rightarrow> string \<Rightarrow> string \<Rightarrow> string" where
  "replace_nonempty old new [] = []"
| "replace_nonempty old new (c # cs) =
     (if old \<noteq> [] \<and> take (length old) (c # cs) = old
      then new @ replace_nonempty old new (drop (length old) (c # cs))
      else c # replace_nonempty old new cs)"
  by pat_completeness auto
termination
  by (relation "measure (\<lambda>(old, new, s). length s)") auto

definition py_replace :: "string \<Rightarrow> string \<Rightarrow> string \<Rightarrow> string" where
  "py_replace old new s =
     (if old = [] then new @ concat (map (\<lambda>c. c # new) s) else replace_nonempty old new s)"

text \<open>
  The whitespace of \<open>str.split()\<close> without a separator, for code points below 256:
  tab to carriage return, the four separators \<open>0x1C\<close> to \<open>0x1F\<close>, the space, \<open>0x85\<close> and
  the no-break space.
\<close>

definition is_space :: "char \<Rightarrow> bool" where
  "is_space c =
     (c = CHR 0x09 \<or> c = CHR 0x0A \<or> c = CHR 0x0B \<or> c = CHR 0x0C \<or> c = CHR 0x0D \<or>
      c = CHR 0x1C \<or> c = CHR 0x1D \<or> c = CHR 0x1E \<or> c = CHR 0x1F \<or> c = CHR 0x20 \<or>
      c = CHR 0x85 \<or> c = CHR 0xA0)"

text \<open>
  \<open>str.split()\<close>: runs of whitespace separate the parts and no part is empty. \<open>cur\<close> is
  the part being read.
\<close>

fun split_ws :: "string \<Rightarrow> string \<Rightarrow> string list" where
  "split_ws cur [] = (if cur = [] then [] else [cur])"
| "split_ws cur (c # cs) =
     (if is_space c then (if cur = [] then split_ws [] cs else cur # split_ws [] cs)
      else split_ws (cur @ [c]) cs)"

definition py_split :: "string \<Rightarrow> string list" where
  "py_split s = split_ws [] s"

text \<open>
  The regular expression \<open>".+?"\<close> at the start of a text: a double quote, one character
  that is not a newline, then as few characters as possible, none of them a newline,
  up to the next double quote. \<open>find_close\<close> reads up to that closing quote and gives the
  characters before it and the text after it.
\<close>

fun find_close :: "string \<Rightarrow> (string \<times> string) option" where
  "find_close [] = None"
| "find_close (c # cs) =
     (if c = CHR 0x22 then Some ([], cs)
      else if c = CHR 0x0A then None
      else (case find_close cs of None \<Rightarrow> None | Some (m, r) \<Rightarrow> Some (c # m, r)))"

fun match_quoted :: "string \<Rightarrow> (string \<times> string) option" where
  "match_quoted (q # c # cs) =
     (if q = CHR 0x22 \<and> c \<noteq> CHR 0x0A
      then (case find_close cs of
              None \<Rightarrow> None
            | Some (m, r) \<Rightarrow> Some (q # c # m @ [CHR 0x22], r))
      else None)"
| "match_quoted _ = None"

lemma find_close_shorter: "find_close s = Some (m, r) \<Longrightarrow> length r < length s"
  by (induction s arbitrary: m r) (auto split: if_splits option.splits)

lemma match_quoted_shorter: "match_quoted s = Some (m, r) \<Longrightarrow> length r < length s"
  by (cases s rule: match_quoted.cases)
     (auto split: if_splits option.splits dest: find_close_shorter)

text \<open>
  \<open>re.sub(r'".+?"', replacer, content)\<close>: the text is read from the left; where the
  expression matches, the match is replaced by \<open>replacer\<close> of it and reading goes on
  after the match; elsewhere the character is kept.
\<close>

function re_sub_quoted :: "(string \<Rightarrow> string) \<Rightarrow> string \<Rightarrow> string" where
  "re_sub_quoted replacer [] = []"
| "re_sub_quoted replacer (c # cs) =
     (case match_quoted (c # cs) of
        Some (m, r) \<Rightarrow> replacer m @ re_sub_quoted replacer r
      | None \<Rightarrow> c # re_sub_quoted replacer cs)"
  by pat_completeness auto
termination
  by (relation "measure (\<lambda>(replacer, s). length s)") (auto dest: match_quoted_shorter)

definition split_message_content :: "string \<Rightarrow> string \<Rightarrow> string list" where
  "split_message_content content delim =
     (let replacer = (\<lambda>m. py_replace delim [CHR 0x00] m);
          parts = py_split (re_sub_quoted replacer content)
      in map (\<lambda>p. py_replace [CHR 0x00] '' '' p) parts)"

section \<open>The prefix matcher (utils.py, \<open>prefix_check_factory\<close>)\<close>

text \<open>
  The prefix given to the factory is a string, a sequence of strings, or a callable that
  gives one of them for a message. Of a message only its content is read.
\<close>

datatype prefix_value = PrefixStr string | PrefixSeq "string list"

datatype prefix_arg = Fixed prefix_value | Callable "string \<Rightarrow> prefix_value"

definition startswith :: "string \<Rightarrow> string \<Rightarrow> bool" where
  "startswith s p = (take (length p) s = p)"

fun first_match :: "string list \<Rightarrow> string \<Rightarrow> string option" where
  "first_match [] content = None"
| "first_match (i # is) content =
     (if startswith content i then Some i else first_match is content)"

text \<open>
  The inner function of the factory. The test for a sequence reads the argument of the
  factory (\<open>prefix\<close>), not the value a callable returned, and a function is not iterable.
  \<open>tokens[0]\<close> raises \<open>IndexError\<close> on an empty list.
\<close>

definition prefix_check :: "prefix_arg \<Rightarrow> string \<Rightarrow> error + (string \<times> string list) option" where
  "prefix_check prefix content =
     (let prefix' = (case prefix of Callable f \<Rightarrow> f content | Fixed v \<Rightarrow> v);
          matched =
            (case prefix' of
               PrefixStr p \<Rightarrow> if startswith content p then Some p else None
             | PrefixSeq ps \<Rightarrow>
                 (case prefix of Fixed _ \<Rightarrow> first_match ps content | Callable _ \<Rightarrow> None))
      in case matched of
           None \<Rightarrow> Inr None
         | Some m \<Rightarrow>
             if m = [] then Inr None
             else (case split_message_content (drop (length m) content) '' '' of
                     [] \<Rightarrow> Inl IndexError
                   | command_word # tokens \<Rightarrow> Inr (Some (command_word, tokens))))"

section \<open>Command annotations (decorators.py)\<close>

text \<open>
  The decorators write attributes onto the function object they are given. A function
  object is reached through a reference, and the store gives the object of every
  reference, so that two references to one object read the same attributes. \<open>cmd = None\<close>
  is a function that carries no command attributes (\<open>is_cmd\<close> is not set).
\<close>

type_synonym ref = nat

record cmd_attrs =
  cmd_name :: string
  cmd_description :: "string option"
  cmd_aliases :: "string list"
  cmd_subcommand :: bool
  cmd_subcommands :: "ref list"

record func_obj =
  func_name :: string
  func_doc :: "string option"
  cmd :: "cmd_attrs option"

type_synonym store = "ref \<Rightarrow> func_obj"

text \<open>
  \<open>get_description\<close> (utils.py): the first line of the cleaned docstring.
  \<open>inspect.cleandoc\<close> belongs to the standard library and is a parameter.
\<close>

definition get_description :: "(string \<Rightarrow> string) \<Rightarrow> func_obj \<Rightarrow> string option" where
  "get_description cleandoc func =
     (case func_doc func of
        None \<Rightarrow> None
      | Some d \<Rightarrow> if d = [] then None else Some (takeWhile (\<lambda>c. c \<noteq> CHR 0x0A) (cleandoc d)))"

text \<open>The keyword arguments of \<open>command\<close>; each defaults to \<open>None\<close>.\<close>

record cmd_kwargs =
  kw_name :: "string option"
  kw_description :: "string option"
  kw_aliases :: "string list option"

text \<open>\<open>x or y\<close> on an optional string or list: \<open>None\<close> and the empty value are false.\<close>

definition or_else :: "'a list option \<Rightarrow> 'a list \<Rightarrow> 'a list" where
  "or_else x y = (case x of None \<Rightarrow> y | Some v \<Rightarrow> if v = [] then y else v)"

definition or_else_opt :: "'a list option \<Rightarrow> 'a list option \<Rightarrow> 'a list option" where
  "or_else_opt x y = (case x of None \<Rightarrow> y | Some v \<Rightarrow> if v = [] then y else Some v)"

text \<open>
  \<open>command(**kwargs)(func)\<close>: the attributes are set on \<open>func\<close> itself and \<open>func\<close> is
  returned, so the result is the store after the call; the object returned is the one
  behind the reference \<open>func\<close>.
\<close>

definition command :: "(string \<Rightarrow> string) \<Rightarrow> cmd_kwargs \<Rightarrow> ref \<Rightarrow> store \<Rightarrow> store" where
  "command cleandoc kw func h =
     h(func := (h func)\<lparr>cmd := Some
         \<lparr>cmd_name = or_else (kw_name kw) (func_name (h func)),
          cmd_description = or_else_opt (kw_description kw) (get_description cleandoc (h func)),
          cmd_aliases = or_else (kw_aliases kw) [],
          cmd_subcommand = False,
          cmd_subcommands = []\<rparr>\<rparr>)"

text \<open>
  \<open>parent.subcommand(**kwargs)(func)\<close>, that is \<open>inner_2\<close> of \<open>_subcommand(parent)\<close>: the
  result is the reference returned (\<open>cmd\<close>, which is \<open>func\<close>) and the store.
\<close>

definition subcommand ::
  "(string \<Rightarrow> string) \<Rightarrow> ref \<Rightarrow> cmd_kwargs \<Rightarrow> ref \<Rightarrow> store \<Rightarrow> error + (ref \<times> store)" where
  "subcommand cleandoc parent kw func h =
     (let h1 = command cleandoc kw func h;
          cmd_ref = func
      in case cmd (h1 cmd_ref) of
           None \<Rightarrow> Inl AttributeError
         | Some c \<Rightarrow>
             (let h2 = h1(cmd_ref := (h1 cmd_ref)\<lparr>cmd := Some (c\<lparr>cmd_subcommand := True\<rparr>)\<rparr>)
              in case cmd (h2 parent) of
                   None \<Rightarrow> Inl AttributeError
                 | Some a \<Rightarrow>
                     Inr (cmd_ref,
                          h2(parent := (h2 parent)\<lparr>cmd := Some
                               (a\<lparr>cmd_subcommands := cmd_subcommands a @ [cmd_ref]\<rparr>)\<rparr>))))"

text \<open>A mutation of a descriptor: an assignment to \<open>cmd_name\<close> through a reference.\<close>

definition set_cmd_name :: "ref \<Rightarrow> string \<Rightarrow> store \<Rightarrow> store" where
  "set_cmd_name r n h =
     (case cmd (h r) of
        None \<Rightarrow> h
      | Some a \<Rightarrow> h(r := (h r)\<lparr>cmd := Some (a\<lparr>cmd_name := n\<rparr>)\<rparr>))"

section \<open>The commands manager (manager.py)\<close>

text \<open>
  A plugin class has a name, an optional \<open>plugin_name\<close> attribute and the commands its
  instances give from \<open>_get_commands\<close>. An instance has an identity; a cancel scope has
  one too. \<open>type(x)\<close> is the class of a plugin instance or the class of cancel scopes.
\<close>

record klass =
  class_name :: string
  class_plugin_name :: "string option"
  class_commands :: "ref list"

record plugin =
  plugin_id :: nat
  plugin_class :: klass

datatype scope = CancelScope nat

datatype pytype = PluginType klass | CancelScopeType

text \<open>The hooks and the task calls of the manager are kept as a trace.\<close>

datatype effect = PluginLoad nat | TaskSpawn nat | ScopeCancel nat | PluginUnload nat

text \<open>
  A key of \<open>_plugin_command_cache\<close>: a dictionary takes any hashable value, an instance
  (hashed by identity) or a string.
\<close>

datatype pykey = KInstance plugin | KString string

text \<open>
  The dictionaries of the manager keep insertion order, which \<open>lookup_command\<close> and
  \<open>unload_plugin\<close> iterate in. \<open>next_id\<close> (the identity of the next object created) and
  \<open>trace\<close> are not fields of the class: they stand for the allocator and for the calls
  made to plugins and scopes.
\<close>

record manager =
  plugins :: "(string \<times> (plugin \<times> scope)) list"
  plugin_command_cache :: "(pykey \<times> (string \<times> ref) list) list"
  commands :: "(string \<times> ref) list"
  module_plugins :: "(string \<times> plugin list) list"
  next_id :: nat
  trace :: "effect list"

text \<open>\<open>d.pop(k)\<close> without a default: the value and the rest, or nothing (\<open>KeyError\<close>).\<close>

fun dict_pop :: "('k \<times> 'v) list \<Rightarrow> 'k \<Rightarrow> ('v \<times> ('k \<times> 'v) list) option" where
  "dict_pop [] k = None"
| "dict_pop ((k', v') # kvs) k =
     (if k' = k then Some (v', kvs)
      else (case dict_pop kvs k of
              None \<Rightarrow> None
            | Some (v, rest) \<Rightarrow> Some (v, (k', v') # rest)))"

text \<open>\<open>getattr(x, "plugin_name", type(x).__name__)\<close> on a class or on an instance.\<close>

definition plugin_name_of :: "klass \<Rightarrow> string" where
  "plugin_name_of k = (case class_plugin_name k of Some n \<Rightarrow> n | None \<Rightarrow> class_name k)"

text \<open>
  The loop of \<open>load_plugin\<close> that fills \<open>table\<close>: the name and every alias of each
  command. Reading \<open>cmd_name\<close> of a function without command attributes raises.
\<close>

fun add_aliases :: "(string \<times> ref) list \<Rightarrow> string list \<Rightarrow> ref \<Rightarrow> (string \<times> ref) list" where
  "add_aliases table [] c = table"
| "add_aliases table (alias # aliases) c = add_aliases (dict_set table alias c) aliases c"

fun build_table :: "store \<Rightarrow> (string \<times> ref) list \<Rightarrow> ref list \<Rightarrow> error + (string \<times> ref) list" where
  "build_table h table [] = Inr table"
| "build_table h table (c # cs) =
     (case cmd (h c) of
        None \<Rightarrow> Inl AttributeError
      | Some a \<Rightarrow>
          build_table h (add_aliases (dict_set table (cmd_name a) c) (cmd_aliases a) c) cs)"

text \<open>\<open>self._module_plugins[module].append(instance)\<close> on a \<open>defaultdict\<close> of lists.\<close>

definition module_append :: "(string \<times> plugin list) list \<Rightarrow> string \<Rightarrow> plugin \<Rightarrow> (string \<times> plugin list) list" where
  "module_append mp module inst =
     dict_set mp module ((case map_of mp module of None \<Rightarrow> [] | Some l \<Rightarrow> l) @ [inst])"

text \<open>
  \<open>load_plugin\<close>. The result is the outcome (the instance or the error raised) and the
  manager as the call leaves it; what was written before a raise stays written.
\<close>

definition load_plugin ::
  "store \<Rightarrow> klass \<Rightarrow> string option \<Rightarrow> manager \<Rightarrow> (error + plugin) \<times> manager" where
  "load_plugin h kls module m =
     (let plugin_name = plugin_name_of kls;
          inst = \<lparr>plugin_id = next_id m, plugin_class = kls\<rparr>;
          new_scope = CancelScope (Suc (next_id m));
          m1 = m\<lparr>next_id := Suc (Suc (next_id m)),
                 trace := trace m @ [PluginLoad (plugin_id inst), TaskSpawn (plugin_id inst)]\<rparr>;
          m2 = m1\<lparr>plugins := dict_set (plugins m1) plugin_name (inst, new_scope)\<rparr>;
          m3 = (case module of
                  None \<Rightarrow> m2
                | Some md \<Rightarrow> m2\<lparr>module_plugins := module_append (module_plugins m2) md inst\<rparr>)
      in case build_table h [] (class_commands kls) of
           Inl e \<Rightarrow> (Inl e, m3)
         | Inr table \<Rightarrow>
             (Inr inst,
              m3\<lparr>plugin_command_cache :=
                   dict_set (plugin_command_cache m3) (KInstance inst) table\<rparr>))"

text \<open>
  The loop of \<open>unload_plugin\<close> for a class: \<open>for k, (s, p) in self.plugins.copy().items()\<close>
  binds \<open>s\<close> to the instance and \<open>p\<close> to the scope of a registration, and the test is
  \<open>type(p) == klass\<close>. The result is the key of the first registration that passes.
\<close>

definition type_of_scope :: "scope \<Rightarrow> pytype" where
  "type_of_scope p = CancelScopeType"

fun find_by_type :: "(string \<times> (plugin \<times> scope)) list \<Rightarrow> pytype \<Rightarrow> string option" where
  "find_by_type [] kls = None"
| "find_by_type ((k, (s, p)) # rest) kls =
     (if type_of_scope p = kls then Some k else find_by_type rest kls)"

datatype unload_arg = ByName string | ByType pytype

text \<open>
  \<open>unload_plugin\<close>. The outcome is the plugin returned (\<open>None\<close> for the bare \<open>return\<close>) or
  the error raised.
\<close>

definition unload_plugin :: "unload_arg \<Rightarrow> manager \<Rightarrow> (error + plugin option) \<times> manager" where
  "unload_plugin kls m =
     (let found =
            (case kls of
               ByName n \<Rightarrow>
                 (case dict_pop (plugins m) n of
                    None \<Rightarrow> Inl KeyError
                  | Some (v, rest) \<Rightarrow> Inr (Some v, rest))
             | ByType t \<Rightarrow>
                 (case find_by_type (plugins m) t of
                    None \<Rightarrow> Inr (None, plugins m)
                  | Some k \<Rightarrow>
                      (case dict_pop (plugins m) k of
                         None \<Rightarrow> Inl KeyError
                       | Some (v, rest) \<Rightarrow> Inr (Some v, rest))))
      in case found of
           Inl e \<Rightarrow> (Inl e, m)
         | Inr (None, rest) \<Rightarrow> (Inr None, m\<lparr>plugins := rest\<rparr>)
         | Inr (Some (plugin, CancelScope sid), rest) \<Rightarrow>
             (let m1 = m\<lparr>plugins := rest,
                         trace := trace m @ [ScopeCancel sid, PluginUnload (plugin_id plugin)]\<rparr>
              in case dict_pop (plugin_command_cache m1)
                        (KString (plugin_name_of (plugin_class plugin))) of
                   None \<Rightarrow> (Inl KeyError, m1)
                 | Some (v, cache) \<Rightarrow> (Inr (Some plugin), m1\<lparr>plugin_command_cache := cache\<rparr>)))"

text \<open>\<open>lookup_command\<close>: the standalone commands first, then the tables of the cache in order.\<close>

fun lookup_cache :: "(pykey \<times> (string \<times> ref) list) list \<Rightarrow> string \<Rightarrow> ref option" where
  "lookup_cache [] name = None"
| "lookup_cache ((pl, table) # rest) name =
     (case map_of table name of Some c \<Rightarrow> Some c | None \<Rightarrow> lookup_cache rest name)"

definition lookup_command :: "manager \<Rightarrow> string \<Rightarrow> ref option" where
  "lookup_command m name =
     (case map_of (commands m) name of
        Some c \<Rightarrow> Some c
      | None \<Rightarrow> lookup_cache (plugin_command_cache m) name)"





text \<open>\<open>add_command\<close>: a function without \<open>is_cmd\<close> is refused with a \<open>ValueError\<close>.\<close>

definition add_command :: "store \<Rightarrow> ref \<Rightarrow> manager \<Rightarrow> (error + ref) \<times> manager" where
  "add_command h c m =
     (case cmd (h c) of
        None \<Rightarrow> (Inl ValueError, m)
      | Some a \<Rightarrow>
          (Inr c,
           m\<lparr>commands := add_aliases (dict_set (commands m) (cmd_name a) c)
                             (cmd_aliases a) c\<rparr>))"

section \<open>Example values\<close>

text \<open>
  A converter that reads a decimal number and rejects everything else, a context that
  uses it for the annotation \<open>int\<close> and passes every other value on, and parameters.
\<close>

definition int_converter :: "pyval \<Rightarrow> error + pyval" where
  "int_converter v =
     (case v of
        PStr s \<Rightarrow>
          if s \<noteq> [] \<and> list_all (\<lambda>c. 48 \<le> (of_char c :: nat) \<and> (of_char c :: nat) \<le> 57) s
          then Inr (PInt (foldl (\<lambda>n c. 10 * n + (int (of_char c) - 48)) 0 s))
          else Inl ConversionFailedError
      | _ \<Rightarrow> Inl ConversionFailedError)"

definition example_ctx :: cmd_context where
  "example_ctx =
     \<lparr>lookup_converter = (\<lambda>ann. if ann = ''int'' then int_converter else Inr)\<rparr>"

definition mk_param :: "string \<Rightarrow> param_kind \<Rightarrow> pyval option \<Rightarrow> string \<Rightarrow> parameter" where
  "mk_param n k d a = \<lparr>param_name = n, param_kind = k, param_default = d, param_annotation = a\<rparr>"

definition ctx_param :: parameter where
  "ctx_param = mk_param ''ctx'' POSITIONAL_OR_KEYWORD None ''Context''"


text \<open>
  A store with the commands \<open>ping\<close> (1), \<open>role\<close> (2) with its subcommand \<open>add\<close> (3),
  \<open>roll\<close> (4) and \<open>config\<close> (5), every other reference being a function that is not a
  command; a plugin class \<open>Games\<close> with the command \<open>roll\<close>; and managers.
\<close>

definition plain_func :: "string \<Rightarrow> func_obj" where
  "plain_func n = \<lparr>func_name = n, func_doc = None, cmd = None\<rparr>"

definition cmd_func :: "string \<Rightarrow> string list \<Rightarrow> bool \<Rightarrow> ref list \<Rightarrow> func_obj" where
  "cmd_func n aliases sub subs =
     \<lparr>func_name = n, func_doc = None,
      cmd = Some \<lparr>cmd_name = n, cmd_description = None, cmd_aliases = aliases,
                  cmd_subcommand = sub, cmd_subcommands = subs\<rparr>\<rparr>"

definition example_store :: store where
  "example_store =
     (\<lambda>r. if r = 1 then cmd_func ''ping'' [''p''] False []
          else if r = 2 then cmd_func ''role'' [] False [3]
          else if r = 3 then cmd_func ''add'' [''a''] True []
          else if r = 4 then cmd_func ''roll'' [''dice''] False []
          else if r = 5 then cmd_func ''config'' [] False []
          else plain_func ''handler'')"

definition games :: klass where
  "games = \<lparr>class_name = ''Games'', class_plugin_name = None, class_commands = [4]\<rparr>"

definition empty_manager :: manager where
  "empty_manager =
     \<lparr>plugins = [], plugin_command_cache = [], commands = [], module_plugins = [],
      next_id = 0, trace = []\<rparr>"

definition no_kwargs :: cmd_kwargs where
  "no_kwargs = \<lparr>kw_name = None, kw_description = None, kw_aliases = None\<rparr>"

definition example_manager :: manager where
  "example_manager =
     \<lparr>plugins = [], plugin_command_cache = [],
      commands = [(''ping'', 1), (''p'', 1), (''role'', 2)], module_plugins = [],
      next_id = 0, trace = []\<rparr>"

section \<open>Notions used by the properties\<close>


text \<open>
  The same function annotated as a subcommand of two parents, one call after the other;
  the result is the two references returned and the store.
\<close>

definition subcommand_twice ::
  "(string \<Rightarrow> string) \<Rightarrow> ref \<Rightarrow> cmd_kwargs \<Rightarrow> ref \<Rightarrow> cmd_kwargs \<Rightarrow> ref \<Rightarrow> store
     \<Rightarrow> error + (ref \<times> ref \<times> store)" where
  "subcommand_twice cleandoc pa kwa pb kwb func h =
     (case subcommand cleandoc pa kwa func h of
        Inl e \<Rightarrow> Inl e
      | Inr (r1, h1) \<Rightarrow>
          (case subcommand cleandoc pb kwb func h1 of
             Inl e \<Rightarrow> Inl e
           | Inr (r2, h2) \<Rightarrow> Inr (r1, r2, h2)))"

text \<open>
  The descriptor reached through a parent after such a call: the last entry of its
  subcommand list. \<open>cmd_name_of\<close> reads the name behind a reference.
\<close>

definition descriptor_via :: "store \<Rightarrow> ref \<Rightarrow> ref option" where
  "descriptor_via h parent =
     (case cmd (h parent) of
        None \<Rightarrow> None
      | Some a \<Rightarrow> if cmd_subcommands a = [] then None else Some (last (cmd_subcommands a)))"

definition cmd_name_of :: "store \<Rightarrow> ref \<Rightarrow> string option" where
  "cmd_name_of h r = map_option cmd_name (cmd (h r))"

text \<open>
  The keys \<open>load_plugin\<close> writes into the cache are instances; \<open>instance_key\<close> says so
  of a key.
\<close>

definition instance_key :: "pykey \<Rightarrow> bool" where
  "instance_key k = (case k of KInstance p \<Rightarrow> True | KString n \<Rightarrow> False)"

text \<open>
  A step of the converter that consumes a token: an ordinary positional parameter, its
  token, and the value its converter gives for the token with the quotes stripped.
\<close>

definition consumes :: "cmd_context \<Rightarrow> parameter \<times> string \<times> pyval \<Rightarrow> bool" where
  "consumes ctx step =
     (case step of (a, t, v) \<Rightarrow>
        (param_kind a = POSITIONAL_OR_KEYWORD \<or> param_kind a = POSITIONAL_ONLY)
        \<and> (case replace_quotes (PStr t) of
             Inl e \<Rightarrow> False
           | Inr t' \<Rightarrow> lookup_converter ctx (param_annotation a) t' = Inr v))"

section \<open>Properties of the argument converter\<close>

lemma strip_quotes_5: "replace_quotes (PStr ''5'') = Inr (PStr ''5'')"
  by (simp add: replace_quotes_def strip_quotes_def)

text \<open>
  Claim C6. The tokens \<open>5\<close>, \<open>rest\<close>, \<open>of\<close>, \<open>line\<close> against a signature of the context
  parameter, an ordinary positional parameter \<open>a\<close> and a keyword-only parameter \<open>b\<close>,
  with converters that accept their input: the positional arguments are the converter of
  \<open>a\<close> on \<open>5\<close> alone, and the keyword arguments hold under the name of \<open>b\<close> the
  converter of \<open>b\<close> on the three remaining tokens joined by single spaces.
\<close>

theorem convert_positional_then_keyword_only:
  assumes ka: "param_kind a = POSITIONAL_OR_KEYWORD \<or> param_kind a = POSITIONAL_ONLY"
    and kb: "param_kind b = KEYWORD_ONLY"
    and ca: "lookup_converter ctx (param_annotation a) (PStr ''5'') = Inr va"
    and cb: "lookup_converter ctx (param_annotation b) (PStr ''rest of line'') = Inr vb"
  shows "convert ctx [''5'', ''rest'', ''of'', ''line''] [c, a, b]
           = Inr ([va], [(param_name b, vb)])"
  using ka kb ca cb
  by (auto simp add: convert_def next_arg_def strip_quotes_5)

text \<open>Claim C6 at the example context: \<open>a\<close> is an \<open>int\<close>, \<open>b\<close> a string.\<close>

theorem convert_positional_then_keyword_only_witness:
  "convert example_ctx [''5'', ''rest'', ''of'', ''line'']
     [ctx_param, mk_param ''a'' POSITIONAL_OR_KEYWORD None ''int'',
      mk_param ''b'' KEYWORD_ONLY None ''str'']
   = Inr ([PInt 5], [(''b'', PStr ''rest of line'')])"
  using convert_positional_then_keyword_only
    [of "mk_param ''a'' POSITIONAL_OR_KEYWORD None ''int''"
        "mk_param ''b'' KEYWORD_ONLY None ''str''" example_ctx "PInt 5" "PStr ''rest of line''"
        ctx_param]
  by (simp add: mk_param_def example_ctx_def int_converter_def)


lemma convert_exhausted_default:
  assumes "param_kind p = POSITIONAL_OR_KEYWORD \<or> param_kind p = POSITIONAL_ONLY"
    and "param_default p = Some d"
  shows "convert ctx [] [c, p] =
           (case replace_quotes d of
              Inl e \<Rightarrow> Inl e
            | Inr d' \<Rightarrow>
                (case lookup_converter ctx (param_annotation p) d' of
                   Inl e \<Rightarrow> Inl e
                 | Inr v \<Rightarrow> Inr ([v], [])))"
  using assms by (auto simp add: convert_def next_arg_def split: sum.splits)

lemma convert_one_token:
  assumes "param_kind p = POSITIONAL_OR_KEYWORD \<or> param_kind p = POSITIONAL_ONLY"
  shows "convert ctx [t] [c, p] =
           (case replace_quotes (PStr t) of
              Inl e \<Rightarrow> Inl e
            | Inr d' \<Rightarrow>
                (case lookup_converter ctx (param_annotation p) d' of
                   Inl e \<Rightarrow> Inl e
                 | Inr v \<Rightarrow> Inr ([v], [])))"
  using assms by (auto simp add: convert_def next_arg_def split: sum.splits)

lemma convert_exhausted_no_default:
  assumes "param_kind p = POSITIONAL_OR_KEYWORD \<or> param_kind p = POSITIONAL_ONLY"
    and "param_default p = None"
  shows "convert ctx [] [c, p] = Inl (MissingArgumentError (param_name p))"
  using assms by (auto simp add: convert_def next_arg_def)

text \<open>
  Claim C7, as amended. No token and one ordinary positional parameter after the context
  parameter: without a declared default the call raises \<open>MissingArgumentError\<close> with the
  name of the parameter; with a declared default the default takes the place of the
  token, and the call returns exactly when the quote stripping and the converter accept
  the default, with the converted default as the only positional argument.
\<close>

theorem convert_missing_or_default:
  assumes "param_kind p = POSITIONAL_OR_KEYWORD \<or> param_kind p = POSITIONAL_ONLY"
  shows "(param_default p = None \<longrightarrow>
            convert ctx [] [c, p] = Inl (MissingArgumentError (param_name p)))
       \<and> (\<forall>d. param_default p = Some d \<longrightarrow>
            ((\<exists>r. convert ctx [] [c, p] = Inr r) \<longleftrightarrow>
             (\<exists>d' v. replace_quotes d = Inr d'
                    \<and> lookup_converter ctx (param_annotation p) d' = Inr v)))
       \<and> (\<forall>d d' v. param_default p = Some d \<and> replace_quotes d = Inr d'
                    \<and> lookup_converter ctx (param_annotation p) d' = Inr v \<longrightarrow>
            convert ctx [] [c, p] = Inr ([v], []))"
proof (intro conjI allI impI)
  assume "param_default p = None"
  with assms show "convert ctx [] [c, p] = Inl (MissingArgumentError (param_name p))"
    by (rule convert_exhausted_no_default)
next
  fix d assume d: "param_default p = Some d"
  show "(\<exists>r. convert ctx [] [c, p] = Inr r) \<longleftrightarrow>
        (\<exists>d' v. replace_quotes d = Inr d' \<and> lookup_converter ctx (param_annotation p) d' = Inr v)"
    unfolding convert_exhausted_default [OF assms d]
    by (auto split: sum.splits)
next
  fix d d' v
  assume "param_default p = Some d \<and> replace_quotes d = Inr d'
            \<and> lookup_converter ctx (param_annotation p) d' = Inr v"
  then show "convert ctx [] [c, p] = Inr ([v], [])"
    using convert_exhausted_default [OF assms, of d ctx c] by simp
qed

text \<open>Claim C7 as amended, at an \<open>int\<close> parameter without a default and with the default \<open>7\<close>.\<close>

theorem convert_missing_or_default_witness:
  "convert example_ctx [] [ctx_param, mk_param ''a'' POSITIONAL_OR_KEYWORD None ''int'']
     = Inl (MissingArgumentError ''a'')
   \<and> convert example_ctx []
       [ctx_param, mk_param ''a'' POSITIONAL_OR_KEYWORD (Some (PStr ''7'')) ''int'']
     = Inr ([PInt 7], [])"
proof -
  have k: "\<And>d. param_kind (mk_param ''a'' POSITIONAL_OR_KEYWORD d ''int'') = POSITIONAL_OR_KEYWORD
             \<or> param_kind (mk_param ''a'' POSITIONAL_OR_KEYWORD d ''int'') = POSITIONAL_ONLY"
    by (simp add: mk_param_def)
  have a: "convert example_ctx [] [ctx_param, mk_param ''a'' POSITIONAL_OR_KEYWORD None ''int'']
             = Inl (MissingArgumentError ''a'')"
    using convert_missing_or_default [OF k, of None example_ctx ctx_param]
    by (simp add: mk_param_def)
  have b: "convert example_ctx []
             [ctx_param, mk_param ''a'' POSITIONAL_OR_KEYWORD (Some (PStr ''7'')) ''int'']
           = Inr ([PInt 7], [])"
    using convert_missing_or_default [OF k, of "Some (PStr ''7'')" example_ctx ctx_param]
    by (simp add: mk_param_def example_ctx_def int_converter_def replace_quotes_def
        strip_quotes_def)
  from a b show ?thesis by simp
qed

text \<open>
  Claim C7 as stated fails: the parameter has the declared default \<open>x\<close>, the converter of
  its annotation rejects \<open>x\<close>, and the call raises instead of completing.
\<close>

theorem convert_default_rejected_counterexample:
  "convert example_ctx []
     [ctx_param, mk_param ''a'' POSITIONAL_OR_KEYWORD (Some (PStr ''x'')) ''int'']
   = Inl ConversionFailedError"
  by (simp add: convert_def next_arg_def mk_param_def ctx_param_def example_ctx_def
      int_converter_def replace_quotes_def strip_quotes_def)

text \<open>
  One step of the loop at an ordinary positional parameter, with the tokens exhausted and
  with a token at hand, and the loop over parameters that each consume one token.
\<close>

lemma convert_params_default_step:
  assumes "param_kind p = POSITIONAL_OR_KEYWORD \<or> param_kind p = POSITIONAL_ONLY"
    and "param_default p = Some d"
  shows "convert_params ctx [] (p # ps) fa fk =
           (case replace_quotes d of
              Inl e \<Rightarrow> Inl e
            | Inr d' \<Rightarrow>
                (case lookup_converter ctx (param_annotation p) d' of
                   Inl e \<Rightarrow> Inl e
                 | Inr v \<Rightarrow> convert_params ctx [] ps (fa @ [v]) fk))"
  using assms by (auto simp add: next_arg_def split: sum.splits)

lemma convert_params_token_step:
  assumes "param_kind p = POSITIONAL_OR_KEYWORD \<or> param_kind p = POSITIONAL_ONLY"
  shows "convert_params ctx (t # ts) (p # ps) fa fk =
           (case replace_quotes (PStr t) of
              Inl e \<Rightarrow> Inl e
            | Inr t' \<Rightarrow>
                (case lookup_converter ctx (param_annotation p) t' of
                   Inl e \<Rightarrow> Inl e
                 | Inr v \<Rightarrow> convert_params ctx ts ps (fa @ [v]) fk))"
  using assms by (auto simp add: next_arg_def split: sum.splits)

lemma convert_params_consumed:
  "list_all (consumes ctx) steps \<Longrightarrow>
   convert_params ctx (map (\<lambda>(a, t, v). t) steps @ rest) (map (\<lambda>(a, t, v). a) steps @ qs) fa fk
     = convert_params ctx rest qs (fa @ map (\<lambda>(a, t, v). v) steps) fk"
proof (induction steps arbitrary: fa)
  case Nil
  then show ?case by simp
next
  case (Cons s steps)
  obtain a t v where s: "s = (a, t, v)" by (cases s)
  from Cons.prems s have here: "consumes ctx (a, t, v)" and rest: "list_all (consumes ctx) steps"
    by simp_all
  from here have k: "param_kind a = POSITIONAL_OR_KEYWORD \<or> param_kind a = POSITIONAL_ONLY"
    by (simp add: consumes_def)
  from here obtain t' where t': "replace_quotes (PStr t) = Inr t'"
    "lookup_converter ctx (param_annotation a) t' = Inr v"
    by (auto simp add: consumes_def split: sum.splits)
  show ?case
    unfolding s using convert_params_token_step [OF k, of ctx t] t' Cons.IH [OF rest, of "fa @ [v]"]
    by simp
qed

text \<open>
  Claim C10. Wherever the loop reaches an ordinary positional parameter with the tokens
  exhausted (with any arguments collected so far and any parameters still to come) and
  the parameter has a declared default, the default is not used as it is: it goes through
  the quote stripping and then through the converter of the parameter, as a consumed token
  does (a string default gives the result of the same string as the only token left), the
  converted value is appended to the positional arguments, and the call fails with the
  error of whichever of the two steps rejects the default. This holds of \<open>_convert\<close>
  after earlier positional parameters have consumed the tokens, and of the signature with
  that parameter alone.
\<close>

theorem convert_default_is_converted:
  assumes "param_kind p = POSITIONAL_OR_KEYWORD \<or> param_kind p = POSITIONAL_ONLY"
    and "param_default p = Some d"
  shows "convert_params ctx [] (p # ps) fa fk =
           (case replace_quotes d of
              Inl e \<Rightarrow> Inl e
            | Inr d' \<Rightarrow>
                (case lookup_converter ctx (param_annotation p) d' of
                   Inl e \<Rightarrow> Inl e
                 | Inr v \<Rightarrow> convert_params ctx [] ps (fa @ [v]) fk))
       \<and> (\<forall>t. d = PStr t \<longrightarrow>
             convert_params ctx [] (p # ps) fa fk = convert_params ctx [t] (p # ps) fa fk)
       \<and> (\<forall>e. replace_quotes d = Inl e \<longrightarrow> convert_params ctx [] (p # ps) fa fk = Inl e)
       \<and> (\<forall>d' e. replace_quotes d = Inr d'
                  \<and> lookup_converter ctx (param_annotation p) d' = Inl e \<longrightarrow>
             convert_params ctx [] (p # ps) fa fk = Inl e)
       \<and> (\<forall>steps. list_all (consumes ctx) steps \<longrightarrow>
             convert ctx (map (\<lambda>(a, t, v). t) steps) (c # map (\<lambda>(a, t, v). a) steps @ p # ps) =
               (case replace_quotes d of
                  Inl e \<Rightarrow> Inl e
                | Inr d' \<Rightarrow>
                    (case lookup_converter ctx (param_annotation p) d' of
                       Inl e \<Rightarrow> Inl e
                     | Inr v \<Rightarrow>
                         convert_params ctx [] ps (map (\<lambda>(a, t, v). v) steps @ [v]) [])))
       \<and> convert ctx [] [c, p] =
           (case replace_quotes d of
              Inl e \<Rightarrow> Inl e
            | Inr d' \<Rightarrow>
                (case lookup_converter ctx (param_annotation p) d' of
                   Inl e \<Rightarrow> Inl e
                 | Inr v \<Rightarrow> Inr ([v], [])))
       \<and> (\<forall>t. d = PStr t \<longrightarrow> convert ctx [] [c, p] = convert ctx [t] [c, p])
       \<and> (\<forall>e. replace_quotes d = Inl e \<longrightarrow> convert ctx [] [c, p] = Inl e)
       \<and> (\<forall>d' e. replace_quotes d = Inr d'
                  \<and> lookup_converter ctx (param_annotation p) d' = Inl e \<longrightarrow>
             convert ctx [] [c, p] = Inl e)"
proof -
  note step = convert_params_default_step [OF assms, of ctx]
  have 1: "convert_params ctx [] (p # ps) fa fk =
           (case replace_quotes d of
              Inl e \<Rightarrow> Inl e
            | Inr d' \<Rightarrow>
                (case lookup_converter ctx (param_annotation p) d' of
                   Inl e \<Rightarrow> Inl e
                 | Inr v \<Rightarrow> convert_params ctx [] ps (fa @ [v]) fk))"
    by (rule step)
  have 2: "\<forall>t. d = PStr t \<longrightarrow>
             convert_params ctx [] (p # ps) fa fk = convert_params ctx [t] (p # ps) fa fk"
    using step [of ps fa fk] convert_params_token_step [OF assms(1), of ctx _ "[]" ps fa fk]
    by simp
  have 3: "\<forall>e. replace_quotes d = Inl e \<longrightarrow> convert_params ctx [] (p # ps) fa fk = Inl e"
    using 1 by simp
  have 4: "\<forall>d' e. replace_quotes d = Inr d'
                  \<and> lookup_converter ctx (param_annotation p) d' = Inl e \<longrightarrow>
             convert_params ctx [] (p # ps) fa fk = Inl e"
    using 1 by simp
  have 5: "\<forall>steps. list_all (consumes ctx) steps \<longrightarrow>
             convert ctx (map (\<lambda>(a, t, v). t) steps) (c # map (\<lambda>(a, t, v). a) steps @ p # ps) =
               (case replace_quotes d of
                  Inl e \<Rightarrow> Inl e
                | Inr d' \<Rightarrow>
                    (case lookup_converter ctx (param_annotation p) d' of
                       Inl e \<Rightarrow> Inl e
                     | Inr v \<Rightarrow>
                         convert_params ctx [] ps (map (\<lambda>(a, t, v). v) steps @ [v]) []))"
  proof (intro allI impI)
    fix steps assume ok: "list_all (consumes ctx) steps"
    from convert_params_consumed [OF ok, of "[]" "p # ps" "[]" "[]"]
    have "convert ctx (map (\<lambda>(a, t, v). t) steps) (c # map (\<lambda>(a, t, v). a) steps @ p # ps)
            = convert_params ctx [] (p # ps) (map (\<lambda>(a, t, v). v) steps) []"
      by (simp add: convert_def)
    then show "convert ctx (map (\<lambda>(a, t, v). t) steps) (c # map (\<lambda>(a, t, v). a) steps @ p # ps) =
               (case replace_quotes d of
                  Inl e \<Rightarrow> Inl e
                | Inr d' \<Rightarrow>
                    (case lookup_converter ctx (param_annotation p) d' of
                       Inl e \<Rightarrow> Inl e
                     | Inr v \<Rightarrow>
                         convert_params ctx [] ps (map (\<lambda>(a, t, v). v) steps @ [v]) []))"
      using step [of ps "map (\<lambda>(a, t, v). v) steps" "[]"] by simp
  qed
  have 6: "convert ctx [] [c, p] =
           (case replace_quotes d of
              Inl e \<Rightarrow> Inl e
            | Inr d' \<Rightarrow>
                (case lookup_converter ctx (param_annotation p) d' of
                   Inl e \<Rightarrow> Inl e
                 | Inr v \<Rightarrow> Inr ([v], [])))"
    using convert_exhausted_default [OF assms] .
  have 7: "\<forall>t. d = PStr t \<longrightarrow> convert ctx [] [c, p] = convert ctx [t] [c, p]"
    using 6 convert_one_token [OF assms(1), of ctx _ c] by simp
  have 8: "\<forall>e. replace_quotes d = Inl e \<longrightarrow> convert ctx [] [c, p] = Inl e"
    using 6 by simp
  have 9: "\<forall>d' e. replace_quotes d = Inr d'
                  \<and> lookup_converter ctx (param_annotation p) d' = Inl e \<longrightarrow>
             convert ctx [] [c, p] = Inl e"
    using 6 by simp
  from 1 2 3 4 5 6 7 8 9 show ?thesis by blast
qed


text \<open>
  Claim C10 at the default \<open>"7"\<close> in quotes, which is stripped and converted to 7: as the
  only parameter, and after a parameter that consumes the token \<open>5\<close> and before one with
  the default \<open>x\<close>.
\<close>

theorem convert_default_is_converted_witness:
  "convert example_ctx []
     [ctx_param, mk_param ''a'' POSITIONAL_OR_KEYWORD (Some (PStr ''\"7\"'')) ''int'']
   = Inr ([PInt 7], [])
   \<and> convert example_ctx []
     [ctx_param, mk_param ''a'' POSITIONAL_OR_KEYWORD (Some (PStr ''\"7\"'')) ''int'']
   = convert example_ctx [''\"7\"'']
     [ctx_param, mk_param ''a'' POSITIONAL_OR_KEYWORD (Some (PStr ''\"7\"'')) ''int'']
   \<and> convert example_ctx [''5'']
     [ctx_param, mk_param ''n'' POSITIONAL_OR_KEYWORD None ''int'',
      mk_param ''a'' POSITIONAL_OR_KEYWORD (Some (PStr ''\"7\"'')) ''int'',
      mk_param ''b'' POSITIONAL_ONLY (Some (PStr ''x'')) ''str'']
   = Inr ([PInt 5, PInt 7, PStr ''x''], [])"
proof -
  let ?p = "mk_param ''a'' POSITIONAL_OR_KEYWORD (Some (PStr ''\"7\"'')) ''int''"
  let ?n = "mk_param ''n'' POSITIONAL_OR_KEYWORD None ''int''"
  let ?b = "mk_param ''b'' POSITIONAL_ONLY (Some (PStr ''x'')) ''str''"
  have k: "param_kind ?p = POSITIONAL_OR_KEYWORD \<or> param_kind ?p = POSITIONAL_ONLY"
    by (simp add: mk_param_def)
  have d: "param_default ?p = Some (PStr ''\"7\"'')"
    by (simp add: mk_param_def)
  note t = convert_default_is_converted [OF k d, of example_ctx "[?b]" "[]" "[]" ctx_param]
  have conv: "(case replace_quotes (PStr ''\"7\"'') of
                 Inl e \<Rightarrow> Inl e
               | Inr d' \<Rightarrow>
                   (case lookup_converter example_ctx (param_annotation ?p) d' of
                      Inl e \<Rightarrow> Inl e
                    | Inr v \<Rightarrow> f v)) = f (PInt 7)" for f :: "pyval \<Rightarrow> error + 'a"
    by (simp add: mk_param_def example_ctx_def int_converter_def replace_quotes_def
        strip_quotes_def)
  from t have "convert example_ctx [] [ctx_param, ?p] =
           (case replace_quotes (PStr ''\"7\"'') of
              Inl e \<Rightarrow> Inl e
            | Inr d' \<Rightarrow>
                (case lookup_converter example_ctx (param_annotation ?p) d' of
                   Inl e \<Rightarrow> Inl e
                 | Inr v \<Rightarrow> Inr ([v], [])))"
    by blast
  then have a: "convert example_ctx [] [ctx_param, ?p] = Inr ([PInt 7], [])"
    unfolding conv .
  from t have b: "convert example_ctx [] [ctx_param, ?p] = convert example_ctx [''\"7\"''] [ctx_param, ?p]"
    by blast
  have ok: "list_all (consumes example_ctx) [(?n, ''5'', PInt 5)]"
    by (simp add: consumes_def mk_param_def example_ctx_def int_converter_def replace_quotes_def
        strip_quotes_def)
  from t have "\<forall>steps. list_all (consumes example_ctx) steps \<longrightarrow>
             convert example_ctx (map (\<lambda>(a, t, v). t) steps)
               (ctx_param # map (\<lambda>(a, t, v). a) steps @ ?p # [?b]) =
               (case replace_quotes (PStr ''\"7\"'') of
                  Inl e \<Rightarrow> Inl e
                | Inr d' \<Rightarrow>
                    (case lookup_converter example_ctx (param_annotation ?p) d' of
                       Inl e \<Rightarrow> Inl e
                     | Inr v \<Rightarrow>
                         convert_params example_ctx [] [?b] (map (\<lambda>(a, t, v). v) steps @ [v]) []))"
    by blast
  from this [rule_format, OF ok]
  have "convert example_ctx [''5''] [ctx_param, ?n, ?p, ?b]
          = convert_params example_ctx [] [?b] [PInt 5, PInt 7] []"
    unfolding conv by simp
  also have "\<dots> = Inr ([PInt 5, PInt 7, PStr ''x''], [])"
    by (simp add: next_arg_def mk_param_def example_ctx_def replace_quotes_def strip_quotes_def)
  finally have c: "convert example_ctx [''5''] [ctx_param, ?n, ?p, ?b]
                     = Inr ([PInt 5, PInt 7, PStr ''x''], [])" .
  from a b c show ?thesis by blast
qed

text \<open>A default that is not a string is rejected by the quote stripping.\<close>

lemma convert_default_not_a_string:
  "convert example_ctx []
     [ctx_param, mk_param ''a'' POSITIONAL_OR_KEYWORD (Some (PInt 7)) ''int'']
   = Inl TypeError"
  by (simp add: convert_def next_arg_def mk_param_def ctx_param_def example_ctx_def
      int_converter_def replace_quotes_def strip_quotes_def)



section \<open>Properties of the tokenizer and of the prefix matcher\<close>

lemma match_quoted_not_quote: "c \<noteq> CHR 0x22 \<Longrightarrow> match_quoted (c # cs) = None"
  by (cases cs) auto

lemma re_sub_quoted_no_quote_prefix:
  "CHR 0x22 \<notin> set pre \<Longrightarrow> re_sub_quoted f (pre @ rest) = pre @ re_sub_quoted f rest"
  by (induction pre) (auto simp add: match_quoted_not_quote)

lemma re_sub_quoted_no_quote: "CHR 0x22 \<notin> set s \<Longrightarrow> re_sub_quoted f s = s"
  using re_sub_quoted_no_quote_prefix [of s f "[]"] by simp





























text \<open>
  A tab inside a quoted run splits it too (only the delimiter is protected), and an empty
  pair of quotes makes the expression pair the quotes that follow differently.
\<close>

lemma split_message_content_tab:
  "split_message_content [CHR 0x22, CHR ''a'', CHR 0x09, CHR ''b'', CHR 0x20, CHR ''c'', CHR 0x22] '' ''
     = [[CHR 0x22, CHR ''a''], [CHR ''b'', CHR 0x20, CHR ''c'', CHR 0x22]]"
  by code_simp

lemma split_message_content_empty_quotes:
  "split_message_content ''\"\" \"a b\"'' '' '' = [''\"\" \"a'', ''b\"'']"
  by code_simp

lemma py_split_spaces: "list_all (\<lambda>c. c = CHR 0x20) ws \<Longrightarrow> split_ws [] ws = []"
  by (induction ws) (auto simp add: is_space_def)

lemma split_message_content_spaces:
  assumes "list_all (\<lambda>c. c = CHR 0x20) ws"
  shows "split_message_content ws delim = []"
proof -
  from assms have "CHR 0x22 \<notin> set ws" by (induction ws) simp_all
  then have "re_sub_quoted (\<lambda>m. py_replace delim [CHR 0x00] m) ws = ws"
    by (rule re_sub_quoted_no_quote)
  moreover from assms have "py_split ws = []"
    unfolding py_split_def by (rule py_split_spaces)
  ultimately show ?thesis
    unfolding split_message_content_def Let_def by simp
qed

text \<open>
  Claim C4. A message whose content is a non-empty prefix, alone or followed by spaces
  only: the remainder has no token, and the matcher raises \<open>IndexError\<close> at \<open>tokens[0]\<close>
  instead of returning a match with an empty command word.
\<close>

theorem prefix_check_empty_remainder:
  assumes "p \<noteq> []" and "list_all (\<lambda>c. c = CHR 0x20) ws"
  shows "prefix_check (Fixed (PrefixStr p)) (p @ ws) = Inl IndexError"
proof -
  have "split_message_content (drop (length p) (p @ ws)) '' '' = []"
    using assms(2) by (simp add: split_message_content_spaces)
  moreover have "startswith (p @ ws) p"
    by (simp add: startswith_def)
  ultimately show ?thesis
    using assms(1) unfolding prefix_check_def Let_def by simp
qed

text \<open>Claim C4 at the prefix \<open>!\<close>, with the content \<open>!\<close> and with \<open>!\<close> and two spaces.\<close>

theorem prefix_check_empty_remainder_witness:
  "prefix_check (Fixed (PrefixStr ''!'')) ''!'' = Inl IndexError
   \<and> prefix_check (Fixed (PrefixStr ''!'')) ''!  '' = Inl IndexError"
  using prefix_check_empty_remainder [of "''!''" "[]"]
    prefix_check_empty_remainder [of "''!''" "''  ''"]
  by simp



section \<open>Properties of the manager and of the annotations\<close>

lemma map_of_dict_set: "map_of (dict_set d k v) = (map_of d)(k \<mapsto> v)"
  by (induction d) (auto simp add: fun_eq_iff)

lemma dict_pop_None: "dict_pop d k = None \<longleftrightarrow> map_of d k = None"
  by (induction d) (auto split: option.splits)

lemma dict_pop_Some: "dict_pop d k = Some (v, rest) \<Longrightarrow> map_of d k = Some v"
  by (induction d arbitrary: rest) (auto split: if_splits option.splits)

lemma dict_pop_dict_set: "\<exists>rest. dict_pop (dict_set d k v) k = Some (v, rest)"
proof -
  have "map_of (dict_set d k v) k = Some v" by (simp add: map_of_dict_set)
  then show ?thesis
    by (cases "dict_pop (dict_set d k v) k") (auto simp add: dict_pop_None dest: dict_pop_Some)
qed

lemma instance_keys_dict_set:
  "list_all instance_key (map fst d) \<Longrightarrow> instance_key k \<Longrightarrow>
   list_all instance_key (map fst (dict_set d k v))"
  by (induction d) auto

lemma instance_keys_no_string:
  "list_all instance_key (map fst d) \<Longrightarrow> dict_pop d (KString n) = None"
  by (induction d) (auto simp add: instance_key_def)

lemma map_of_add_aliases:
  "map_of (add_aliases t als c) = (\<lambda>n. if n \<in> set als then Some c else map_of t n)"
  by (induction als arbitrary: t) (auto simp add: map_of_dict_set fun_eq_iff)

lemma build_table_names:
  assumes "build_table h t cs = Inr table"
  shows "dom (map_of t) \<subseteq> dom (map_of table)
       \<and> (\<forall>c\<in>set cs. \<forall>a. cmd (h c) = Some a \<longrightarrow>
             cmd_name a \<in> dom (map_of table) \<and> set (cmd_aliases a) \<subseteq> dom (map_of table))"
  using assms
proof (induction cs arbitrary: t)
  case Nil
  then show ?case by simp
next
  case (Cons c cs)
  from Cons.prems obtain a where a: "cmd (h c) = Some a"
    and rest: "build_table h (add_aliases (dict_set t (cmd_name a) c) (cmd_aliases a) c) cs = Inr table"
    by (auto split: option.splits)
  let ?t = "add_aliases (dict_set t (cmd_name a) c) (cmd_aliases a) c"
  from Cons.IH [OF rest] have sub: "dom (map_of ?t) \<subseteq> dom (map_of table)"
    and later: "\<forall>c\<in>set cs. \<forall>a. cmd (h c) = Some a \<longrightarrow>
             cmd_name a \<in> dom (map_of table) \<and> set (cmd_aliases a) \<subseteq> dom (map_of table)"
    by blast+
  have here: "dom (map_of t) \<subseteq> dom (map_of ?t)" "cmd_name a \<in> dom (map_of ?t)"
    "set (cmd_aliases a) \<subseteq> dom (map_of ?t)"
    by (auto simp add: map_of_add_aliases map_of_dict_set split: if_splits)
  from here(1) sub have 1: "dom (map_of t) \<subseteq> dom (map_of table)" by (rule subset_trans)
  from here(2) sub have 2: "cmd_name a \<in> dom (map_of table)" by (rule subsetD [rotated])
  from here(3) sub have 3: "set (cmd_aliases a) \<subseteq> dom (map_of table)" by (rule subset_trans)
  have "\<forall>c'\<in>set (c # cs). \<forall>a'. cmd (h c') = Some a' \<longrightarrow>
          cmd_name a' \<in> dom (map_of table) \<and> set (cmd_aliases a') \<subseteq> dom (map_of table)"
  proof (intro ballI allI impI)
    fix c' a' assume c': "c' \<in> set (c # cs)" and a': "cmd (h c') = Some a'"
    show "cmd_name a' \<in> dom (map_of table) \<and> set (cmd_aliases a') \<subseteq> dom (map_of table)"
    proof (cases "c' = c")
      case True
      with a a' have "a' = a" by simp
      with 2 3 show ?thesis by simp
    next
      case False
      with c' have "c' \<in> set cs" by simp
      with later a' show ?thesis by blast
    qed
  qed
  with 1 show ?case by blast
qed

lemma lookup_cache_found:
  "(k, t) \<in> set cache \<Longrightarrow> map_of t n \<noteq> None \<Longrightarrow> lookup_cache cache n \<noteq> None"
  by (induction cache) (auto split: option.splits)

lemma lookup_command_found:
  assumes "(k, t) \<in> set (plugin_command_cache m)" and "n \<in> dom (map_of t)"
  shows "lookup_command m n \<noteq> None"
  using lookup_cache_found [OF assms(1), of n] assms(2)
  by (auto simp add: lookup_command_def split: option.splits)

lemma find_by_type_plugin: "find_by_type d (PluginType K) = None"
  by (induction d) (auto simp add: type_of_scope_def)

lemma unload_by_plugin_type: "unload_plugin (ByType (PluginType K)) m = (Inr None, m)"
  by (simp add: unload_plugin_def find_by_type_plugin)

lemma load_plugin_result:
  assumes "load_plugin h K md m = (Inr inst, m1)"
  shows "\<exists>table. build_table h [] (class_commands K) = Inr table
           \<and> inst = \<lparr>plugin_id = next_id m, plugin_class = K\<rparr>
           \<and> plugins m1 = dict_set (plugins m) (plugin_name_of K) (inst, CancelScope (Suc (next_id m)))
           \<and> plugin_command_cache m1 = dict_set (plugin_command_cache m) (KInstance inst) table
           \<and> commands m1 = commands m
           \<and> trace m1 = trace m @ [PluginLoad (next_id m), TaskSpawn (next_id m)]"
  using assms
  by (auto simp add: load_plugin_def Let_def split: sum.splits option.splits)


lemma unload_by_name_registered:
  assumes pop: "dict_pop (plugins m) n = Some ((pl, CancelScope sid), rest)"
    and keys: "list_all instance_key (map fst (plugin_command_cache m))"
  shows "unload_plugin (ByName n) m =
           (Inl KeyError,
            m\<lparr>plugins := rest, trace := trace m @ [ScopeCancel sid, PluginUnload (plugin_id pl)]\<rparr>)"
  using pop instance_keys_no_string [OF keys]
  by (simp add: unload_plugin_def Let_def)

text \<open>
  Claim C1. A plugin is loaded into a manager whose cache is keyed by instances and is
  then unloaded by its registered name. The standalone commands are those before the
  load, as the claim says. But \<open>unload_plugin\<close> pops the cache at the name of the plugin,
  while \<open>load_plugin\<close> stored the table at the instance: the call raises \<open>KeyError\<close>,
  the cache keeps the table of the plugin, and every name and alias of its commands still
  resolves through \<open>lookup_command\<close>.
\<close>

theorem load_then_unload_keeps_commands_resolvable:
  assumes keys: "list_all instance_key (map fst (plugin_command_cache m))"
    and load: "load_plugin h K md m = (Inr inst, m1)"
    and un: "unload_plugin (ByName (plugin_name_of K)) m1 = (out, m2)"
  shows "out = Inl KeyError
       \<and> commands m2 = commands m
       \<and> plugin_command_cache m2 = plugin_command_cache m1
       \<and> map_of (plugin_command_cache m2) (KInstance inst) \<noteq> None
       \<and> (\<forall>c\<in>set (class_commands K). \<forall>a. cmd (h c) = Some a \<longrightarrow>
             lookup_command m2 (cmd_name a) \<noteq> None
             \<and> (\<forall>al\<in>set (cmd_aliases a). lookup_command m2 al \<noteq> None))"
proof -
  from load_plugin_result [OF load] obtain table where
    table: "build_table h [] (class_commands K) = Inr table"
    and pl: "plugins m1 = dict_set (plugins m) (plugin_name_of K) (inst, CancelScope (Suc (next_id m)))"
    and cache: "plugin_command_cache m1 = dict_set (plugin_command_cache m) (KInstance inst) table"
    and cmds: "commands m1 = commands m"
    by blast
  from pl obtain rest where
    pop: "dict_pop (plugins m1) (plugin_name_of K) = Some ((inst, CancelScope (Suc (next_id m))), rest)"
    using dict_pop_dict_set [of "plugins m" "plugin_name_of K"] by auto
  have keys1: "list_all instance_key (map fst (plugin_command_cache m1))"
    unfolding cache using keys by (rule instance_keys_dict_set) (simp add: instance_key_def)
  from unload_by_name_registered [OF pop keys1] un
  have out: "out = Inl KeyError"
    and m2: "m2 = m1\<lparr>plugins := rest,
                      trace := trace m1 @ [ScopeCancel (Suc (next_id m)), PluginUnload (plugin_id inst)]\<rparr>"
    by simp_all
  from m2 have c2: "plugin_command_cache m2 = plugin_command_cache m1"
    and k2: "commands m2 = commands m1" by simp_all
  have entry: "map_of (plugin_command_cache m2) (KInstance inst) = Some table"
    unfolding c2 cache by (simp add: map_of_dict_set)
  then have mem: "(KInstance inst, table) \<in> set (plugin_command_cache m2)"
    by (rule map_of_SomeD)
  have names: "\<forall>c\<in>set (class_commands K). \<forall>a. cmd (h c) = Some a \<longrightarrow>
             lookup_command m2 (cmd_name a) \<noteq> None
             \<and> (\<forall>al\<in>set (cmd_aliases a). lookup_command m2 al \<noteq> None)"
  proof (intro ballI allI impI conjI)
    fix c a assume c: "c \<in> set (class_commands K)" and a: "cmd (h c) = Some a"
    from build_table_names [OF table] c a
    have n: "cmd_name a \<in> dom (map_of table)" and als: "set (cmd_aliases a) \<subseteq> dom (map_of table)"
      by blast+
    from mem n show "lookup_command m2 (cmd_name a) \<noteq> None" by (rule lookup_command_found)
    fix al assume "al \<in> set (cmd_aliases a)"
    with als have "al \<in> dom (map_of table)" by blast
    with mem show "lookup_command m2 al \<noteq> None" by (rule lookup_command_found)
  qed
  from out k2 cmds c2 entry names show ?thesis by simp
qed

text \<open>
  Claim C2. Unloading a name that is not a key of the registry leaves the manager as it
  is, as the claim says, but \<open>self.plugins.pop(klass)\<close> has no default: the call raises
  \<open>KeyError\<close> instead of returning \<open>None\<close>.
\<close>

theorem unload_unknown_name_raises:
  assumes "map_of (plugins m) n = None"
  shows "unload_plugin (ByName n) m = (Inl KeyError, m)"
  using assms by (simp add: unload_plugin_def dict_pop_None [symmetric])

text \<open>
  Claim C3. After a plugin of class \<open>K\<close> is loaded, unloading by the class \<open>K\<close> finds
  no registration: the loop compares the type of the cancel scope, not of the instance,
  with \<open>K\<close>. The call returns \<open>None\<close>, the manager is unchanged (no scope is cancelled,
  no hook runs), and the instance stays registered and cached.
\<close>

theorem unload_by_type_finds_nothing:
  assumes "load_plugin h K md m = (Inr inst, m1)"
  shows "unload_plugin (ByType (PluginType K)) m1 = (Inr None, m1)
       \<and> map_of (plugins m1) (plugin_name_of K) = Some (inst, CancelScope (Suc (next_id m)))
       \<and> map_of (plugin_command_cache m1) (KInstance inst) \<noteq> None"
proof -
  from load_plugin_result [OF assms] obtain table where
    "plugins m1 = dict_set (plugins m) (plugin_name_of K) (inst, CancelScope (Suc (next_id m)))"
    "plugin_command_cache m1 = dict_set (plugin_command_cache m) (KInstance inst) table"
    by blast
  then show ?thesis
    by (simp add: unload_by_plugin_type map_of_dict_set)
qed


lemma example_load:
  "load_plugin example_store games None example_manager =
     (Inr \<lparr>plugin_id = 0, plugin_class = games\<rparr>,
      \<lparr>plugins = [(''Games'', (\<lparr>plugin_id = 0, plugin_class = games\<rparr>, CancelScope 1))],
       plugin_command_cache =
         [(KInstance \<lparr>plugin_id = 0, plugin_class = games\<rparr>, [(''roll'', 4), (''dice'', 4)])],
       commands = [(''ping'', 1), (''p'', 1), (''role'', 2)], module_plugins = [],
       next_id = 2, trace = [PluginLoad 0, TaskSpawn 0]\<rparr>)"
  by (simp add: load_plugin_def Let_def example_manager_def example_store_def games_def
      cmd_func_def plugin_name_of_def)

text \<open>Claim C1 at the plugin \<open>Games\<close>: \<open>roll\<close> and its alias \<open>dice\<close> resolve after the unload.\<close>

theorem load_then_unload_keeps_commands_resolvable_witness:
  "fst (unload_plugin (ByName ''Games'')
          (snd (load_plugin example_store games None example_manager))) = Inl KeyError
   \<and> lookup_command
        (snd (unload_plugin (ByName ''Games'')
                (snd (load_plugin example_store games None example_manager)))) ''roll'' \<noteq> None
   \<and> lookup_command
        (snd (unload_plugin (ByName ''Games'')
                (snd (load_plugin example_store games None example_manager)))) ''dice'' \<noteq> None"
proof -
  let ?m1 = "snd (load_plugin example_store games None example_manager)"
  let ?inst = "\<lparr>plugin_id = 0, plugin_class = games\<rparr>"
  let ?u = "unload_plugin (ByName ''Games'') ?m1"
  have name: "plugin_name_of games = ''Games''"
    by (simp add: plugin_name_of_def games_def)
  have keys: "list_all instance_key (map fst (plugin_command_cache example_manager))"
    by (simp add: example_manager_def)
  have load: "load_plugin example_store games None example_manager = (Inr ?inst, ?m1)"
    by (simp add: example_load)
  have un: "unload_plugin (ByName (plugin_name_of games)) ?m1 = (fst ?u, snd ?u)"
    by (simp add: name)
  note t = load_then_unload_keeps_commands_resolvable [OF keys load un]
  from t have out: "fst ?u = Inl KeyError" by blast
  have c: "4 \<in> set (class_commands games)" by (simp add: games_def)
  have a: "cmd (example_store 4) =
             Some \<lparr>cmd_name = ''roll'', cmd_description = None, cmd_aliases = [''dice''],
                   cmd_subcommand = False, cmd_subcommands = []\<rparr>"
    by (simp add: example_store_def cmd_func_def)
  from t c a have "lookup_command (snd ?u) ''roll'' \<noteq> None
       \<and> (\<forall>al\<in>set [''dice'']. lookup_command (snd ?u) al \<noteq> None)"
    by fastforce
  with out show ?thesis by simp
qed

text \<open>Claim C3 at the plugin \<open>Games\<close>.\<close>

theorem unload_by_type_finds_nothing_witness:
  "unload_plugin (ByType (PluginType games))
     (snd (load_plugin example_store games None example_manager))
   = (Inr None, snd (load_plugin example_store games None example_manager))
   \<and> map_of (plugins (snd (load_plugin example_store games None example_manager))) ''Games''
     = Some (\<lparr>plugin_id = 0, plugin_class = games\<rparr>, CancelScope 1)"
proof -
  let ?m1 = "snd (load_plugin example_store games None example_manager)"
  let ?inst = "\<lparr>plugin_id = 0, plugin_class = games\<rparr>"
  have load: "load_plugin example_store games None example_manager = (Inr ?inst, ?m1)"
    by (simp add: example_load)
  have name: "plugin_name_of games = ''Games''"
    by (simp add: plugin_name_of_def games_def)
  have n: "next_id example_manager = 0" by (simp add: example_manager_def)
  from unload_by_type_finds_nothing [OF load] show ?thesis
    by (simp add: name n)
qed











lemma command_other: "r \<noteq> func \<Longrightarrow> command cleandoc kw func h r = h r"
  by (simp add: command_def)

lemma command_self:
  "cmd (command cleandoc kw func h func) =
     Some \<lparr>cmd_name = or_else (kw_name kw) (func_name (h func)),
           cmd_description = or_else_opt (kw_description kw) (get_description cleandoc (h func)),
           cmd_aliases = or_else (kw_aliases kw) [],
           cmd_subcommand = False,
           cmd_subcommands = []\<rparr>"
  by (simp add: command_def)

lemma command_keeps_func:
  "func_name (command cleandoc kw func h r) = func_name (h r)
   \<and> func_doc (command cleandoc kw func h r) = func_doc (h r)"
  by (simp add: command_def)

lemma subcommand_result:
  assumes "func \<noteq> parent" and "cmd (h parent) = Some a"
  shows "\<exists>h'. subcommand cleandoc parent kw func h = Inr (func, h')
           \<and> cmd (h' parent) = Some (a\<lparr>cmd_subcommands := cmd_subcommands a @ [func]\<rparr>)
           \<and> cmd (h' func) =
               Some \<lparr>cmd_name = or_else (kw_name kw) (func_name (h func)),
                     cmd_description =
                       or_else_opt (kw_description kw) (get_description cleandoc (h func)),
                     cmd_aliases = or_else (kw_aliases kw) [],
                     cmd_subcommand = True,
                     cmd_subcommands = []\<rparr>
           \<and> func_name (h' func) = func_name (h func)
           \<and> func_doc (h' func) = func_doc (h func)
           \<and> (\<forall>r. r \<noteq> func \<and> r \<noteq> parent \<longrightarrow> h' r = h r)"
  using assms
  by (simp add: subcommand_def Let_def command_def)


text \<open>
  Claim C5, as amended. \<open>func\<close> is annotated as a subcommand of \<open>pa\<close> and then of \<open>pb\<close>,
  two distinct commands other than \<open>func\<close>. Both calls return \<open>func\<close> itself; \<open>func\<close> is
  appended to the subcommand list of \<open>pa\<close> and to that of \<open>pb\<close>, so the descriptor
  reached through either parent is the one object \<open>func\<close>; its attributes are those of
  the second annotation; and a name assigned through one reference is read through the
  other.
\<close>

theorem subcommand_twice_shares_object:
  assumes ab: "pa \<noteq> pb" and fa: "func \<noteq> pa" and fb: "func \<noteq> pb"
    and a: "cmd (h pa) = Some a" and b: "cmd (h pb) = Some b"
  shows "\<exists>h2. subcommand_twice cleandoc pa kwa pb kwb func h = Inr (func, func, h2)
           \<and> cmd (h2 pa) = Some (a\<lparr>cmd_subcommands := cmd_subcommands a @ [func]\<rparr>)
           \<and> cmd (h2 pb) = Some (b\<lparr>cmd_subcommands := cmd_subcommands b @ [func]\<rparr>)
           \<and> descriptor_via h2 pa = Some func
           \<and> descriptor_via h2 pb = Some func
           \<and> cmd (h2 func) =
               Some \<lparr>cmd_name = or_else (kw_name kwb) (func_name (h func)),
                     cmd_description =
                       or_else_opt (kw_description kwb) (get_description cleandoc (h func)),
                     cmd_aliases = or_else (kw_aliases kwb) [],
                     cmd_subcommand = True,
                     cmd_subcommands = []\<rparr>
           \<and> (\<forall>n. cmd_name_of (set_cmd_name func n h2) func = Some n)"
proof -
  from subcommand_result [where func = func and parent = pa and h = h and a = a
      and cleandoc = cleandoc and kw = kwa, OF fa a] obtain h1 where
    s1: "subcommand cleandoc pa kwa func h = Inr (func, h1)"
    and a1: "cmd (h1 pa) = Some (a\<lparr>cmd_subcommands := cmd_subcommands a @ [func]\<rparr>)"
    and n1: "func_name (h1 func) = func_name (h func)" "func_doc (h1 func) = func_doc (h func)"
    and o1: "\<forall>r. r \<noteq> func \<and> r \<noteq> pa \<longrightarrow> h1 r = h r"
    by blast
  from o1 fb ab have "h1 pb = h pb" by simp
  with b have b1: "cmd (h1 pb) = Some b" by simp
  from subcommand_result [where func = func and parent = pb and h = h1 and a = b
      and cleandoc = cleandoc and kw = kwb, OF fb b1] obtain h2 where
    s2: "subcommand cleandoc pb kwb func h1 = Inr (func, h2)"
    and b2: "cmd (h2 pb) = Some (b\<lparr>cmd_subcommands := cmd_subcommands b @ [func]\<rparr>)"
    and f2: "cmd (h2 func) =
               Some \<lparr>cmd_name = or_else (kw_name kwb) (func_name (h1 func)),
                     cmd_description =
                       or_else_opt (kw_description kwb) (get_description cleandoc (h1 func)),
                     cmd_aliases = or_else (kw_aliases kwb) [],
                     cmd_subcommand = True,
                     cmd_subcommands = []\<rparr>"
    and o2: "\<forall>r. r \<noteq> func \<and> r \<noteq> pb \<longrightarrow> h2 r = h1 r"
    by blast
  from o2 fa ab have "h2 pa = h1 pa" by simp
  with a1 have a2: "cmd (h2 pa) = Some (a\<lparr>cmd_subcommands := cmd_subcommands a @ [func]\<rparr>)"
    by simp
  have d: "get_description cleandoc (h1 func) = get_description cleandoc (h func)"
    using n1 by (simp add: get_description_def)
  have tw: "subcommand_twice cleandoc pa kwa pb kwb func h = Inr (func, func, h2)"
    by (simp add: subcommand_twice_def s1 s2)
  have da: "descriptor_via h2 pa = Some func" by (simp add: descriptor_via_def a2)
  have db: "descriptor_via h2 pb = Some func" by (simp add: descriptor_via_def b2)
  have mut: "\<forall>n. cmd_name_of (set_cmd_name func n h2) func = Some n"
    by (simp add: cmd_name_of_def set_cmd_name_def f2)
  from tw a2 b2 da db f2 mut show ?thesis
    unfolding d n1 by blast
qed

text \<open>Claim C5 as amended, at the parents \<open>role\<close> and \<open>config\<close> and the function 6.\<close>

theorem subcommand_twice_shares_object_witness:
  "(case subcommand_twice id 2 no_kwargs 5 no_kwargs 6 example_store of
      Inl e \<Rightarrow> False
    | Inr (r1, r2, h2) \<Rightarrow>
        r1 = 6 \<and> r2 = 6 \<and> descriptor_via h2 2 = Some 6 \<and> descriptor_via h2 5 = Some 6
        \<and> cmd_name_of h2 6 = Some ''handler'')"
proof -
  have a: "cmd (example_store 2) = Some \<lparr>cmd_name = ''role'', cmd_description = None,
             cmd_aliases = [], cmd_subcommand = False, cmd_subcommands = [3]\<rparr>"
    and b: "cmd (example_store 5) = Some \<lparr>cmd_name = ''config'', cmd_description = None,
             cmd_aliases = [], cmd_subcommand = False, cmd_subcommands = []\<rparr>"
    and f: "func_name (example_store 6) = ''handler''"
    by (simp_all add: example_store_def cmd_func_def plain_func_def)
  have ne: "(2::nat) \<noteq> 5" "(6::nat) \<noteq> 2" "(6::nat) \<noteq> 5" by simp_all
  from subcommand_twice_shares_object [where pa = 2 and pb = 5 and func = 6 and h = example_store
      and cleandoc = id and kwa = no_kwargs and kwb = no_kwargs, OF ne a b]
  obtain h2 where "subcommand_twice id 2 no_kwargs 5 no_kwargs 6 example_store = Inr (6, 6, h2)"
    "descriptor_via h2 2 = Some 6" "descriptor_via h2 5 = Some 6"
    "cmd (h2 6) = Some \<lparr>cmd_name = or_else (kw_name no_kwargs) (func_name (example_store 6)),
        cmd_description = or_else_opt (kw_description no_kwargs)
                            (get_description id (example_store 6)),
        cmd_aliases = or_else (kw_aliases no_kwargs) [],
        cmd_subcommand = True, cmd_subcommands = []\<rparr>"
    by blast
  then show ?thesis
    by (simp add: cmd_name_of_def f no_kwargs_def or_else_def)
qed

text \<open>
  Claim C5 as stated fails: the descriptors reached through \<open>role\<close> and through \<open>config\<close>
  are the same reference, and renaming it changes the name read through both.
\<close>

theorem subcommand_twice_counterexample:
  "(case subcommand_twice id 2 no_kwargs 5 no_kwargs 6 example_store of
      Inl e \<Rightarrow> False
    | Inr (r1, r2, h2) \<Rightarrow>
        descriptor_via h2 2 = Some 6 \<and> descriptor_via h2 5 = Some 6
        \<and> cmd_name_of h2 6 = Some ''handler''
        \<and> cmd_name_of (set_cmd_name 6 ''renamed'' h2) 6 = Some ''renamed'')"
  by (simp add: subcommand_twice_def subcommand_def command_def Let_def descriptor_via_def
      cmd_name_of_def set_cmd_name_def example_store_def cmd_func_def plain_func_def
      no_kwargs_def or_else_def or_else_opt_def get_description_def)


lemma dict_pop_instance_keys:
  "list_all instance_key (map fst d) \<Longrightarrow> dict_pop d k = Some (v, rest) \<Longrightarrow>
   list_all instance_key (map fst rest)"
  by (induction d arbitrary: rest) (auto split: if_splits option.splits)

lemma empty_manager_instance_keys:
  "list_all instance_key (map fst (plugin_command_cache empty_manager))"
  by (simp add: empty_manager_def)

lemma load_plugin_instance_keys:
  assumes "list_all instance_key (map fst (plugin_command_cache m))"
  shows "list_all instance_key (map fst (plugin_command_cache (snd (load_plugin h K md m))))"
proof (cases "build_table h [] (class_commands K)")
  case (Inl e)
  with assms show ?thesis
    by (simp add: load_plugin_def Let_def split: option.splits)
next
  case (Inr table)
  have "instance_key (KInstance \<lparr>plugin_id = next_id m, plugin_class = K\<rparr>)"
    by (simp add: instance_key_def)
  from instance_keys_dict_set [OF assms this, of table] Inr show ?thesis
    by (simp add: load_plugin_def Let_def split: option.splits)
qed

lemma unload_plugin_instance_keys:
  assumes "list_all instance_key (map fst (plugin_command_cache m))"
  shows "list_all instance_key (map fst (plugin_command_cache (snd (unload_plugin kls m))))"
  using assms dict_pop_instance_keys [OF assms]
  by (auto simp add: unload_plugin_def Let_def
      split: unload_arg.splits option.splits sum.splits prod.splits scope.splits)

text \<open>The unload of \<open>Games\<close> by name, evaluated.\<close>

lemma example_unload:
  "unload_plugin (ByName ''Games'') (snd (load_plugin example_store games None example_manager)) =
     (Inl KeyError,
      \<lparr>plugins = [],
       plugin_command_cache =
         [(KInstance \<lparr>plugin_id = 0, plugin_class = games\<rparr>, [(''roll'', 4), (''dice'', 4)])],
       commands = [(''ping'', 1), (''p'', 1), (''role'', 2)], module_plugins = [],
       next_id = 2,
       trace = [PluginLoad 0, TaskSpawn 0, ScopeCancel 1, PluginUnload 0]\<rparr>)"
  unfolding example_load snd_conv
  by (simp add: unload_plugin_def Let_def plugin_name_of_def games_def)

text \<open>
  Claim C2 at a name never registered, and at \<open>Games\<close> after it has been unloaded once.
\<close>

theorem unload_unknown_name_raises_witness:
  "unload_plugin (ByName ''ghost'') example_manager = (Inl KeyError, example_manager)
   \<and> unload_plugin (ByName ''Games'')
       (snd (unload_plugin (ByName ''Games'')
               (snd (load_plugin example_store games None example_manager))))
     = (Inl KeyError,
        snd (unload_plugin (ByName ''Games'')
               (snd (load_plugin example_store games None example_manager))))"
proof -
  let ?m2 = "snd (unload_plugin (ByName ''Games'')
               (snd (load_plugin example_store games None example_manager)))"
  have 1: "unload_plugin (ByName ''ghost'') example_manager = (Inl KeyError, example_manager)"
    using unload_unknown_name_raises [of example_manager "''ghost''"]
    by (simp add: example_manager_def)
  have "map_of (plugins ?m2) ''Games'' = None"
    by (simp add: example_unload)
  then have 2: "unload_plugin (ByName ''Games'') ?m2 = (Inl KeyError, ?m2)"
    by (rule unload_unknown_name_raises)
  from 1 2 show ?thesis by simp
qed


end
